theory Spec2Isabelle
  imports Main "HOL-Library.AList" "HOL-Library.Char_ord" "HOL-Library.List_Lexorder"
begin

section \<open>JavaScript values\<close>

text \<open>
  Every value the pipeline inspects comes out of \<^verbatim>\<open>JSON.parse\<close>, so it is a JSON value.
  An object is an association list in property order; \<^verbatim>\<open>o.k = v\<close> overwrites an existing
  property in place and appends a new one, which is \<open>AList.update\<close> (JavaScript lists
  integer-like names first; nothing below depends on the order of names). A parsed
  object has each name once; the properties below hold for every list. Numbers are
  modelled by integers: the code tests a number for truthiness, and prints one only in
  \<open>js_String\<close>, whose digits are JavaScript's for the integers a double holds exactly. A JavaScript
  string is a list of code units; the model covers the code units below 256.
  \<^verbatim>\<open>undefined\<close> is not a JSON value: a property read returns an \<open>option\<close>.
\<close>

datatype json =
    JNull
  | JBool bool
  | JNum int
  | JStr string
  | JArr "json list"
  | JObj "(string \<times> json) list"

type_synonym jsobject = "(string \<times> json) list"

text \<open>Truthiness (\<^verbatim>\<open>if (v)\<close>, \<^verbatim>\<open>a || b\<close>, \<^verbatim>\<open>!v\<close>) of a JSON value, and of a
  value that may be \<^verbatim>\<open>undefined\<close>.\<close>

fun truthy :: "json \<Rightarrow> bool" where
  "truthy JNull = False"
| "truthy (JBool b) = b"
| "truthy (JNum n) = (n \<noteq> 0)"
| "truthy (JStr s) = (s \<noteq> [])"
| "truthy (JArr xs) = True"
| "truthy (JObj kvs) = True"

fun truthy_opt :: "json option \<Rightarrow> bool" where
  "truthy_opt None = False"
| "truthy_opt (Some v) = truthy v"

text \<open>
  \<^verbatim>\<open>v.k\<close> for the property names the code reads (none of them is a built-in property of
  a string, an array, a number or a boolean, so only an object can answer). Reading a
  property of \<^verbatim>\<open>null\<close> throws a TypeError: callers test for \<open>JNull\<close> first.
\<close>

fun get_prop :: "json \<Rightarrow> string \<Rightarrow> json option" where
  "get_prop (JObj kvs) k = map_of kvs k"
| "get_prop v k = None"

text \<open>\<^verbatim>\<open>v?.k\<close> on a value that may be \<^verbatim>\<open>undefined\<close> or \<^verbatim>\<open>null\<close>.\<close>

fun opt_prop :: "json option \<Rightarrow> string \<Rightarrow> json option" where
  "opt_prop None k = None"
| "opt_prop (Some JNull) k = None"
| "opt_prop (Some v) k = get_prop v k"

text \<open>\<^verbatim>\<open>xs || []\<close> for an optional array and \<^verbatim>\<open>o || {}\<close> for an optional object.\<close>

definition or_empty :: "'a list option \<Rightarrow> 'a list" where
  "or_empty xs = (case xs of None \<Rightarrow> [] | Some ys \<Rightarrow> ys)"

text \<open>\<^verbatim>\<open>xs.join(sep)\<close> on strings.\<close>

fun js_join :: "string \<Rightarrow> string list \<Rightarrow> string" where
  "js_join sep [] = []"
| "js_join sep [x] = x"
| "js_join sep (x # y # ys) = x @ sep @ js_join sep (y # ys)"

text \<open>Decimal digits of a natural number (array indices as property names, numbers in
  error messages).\<close>

fun show_nat :: "nat \<Rightarrow> string" where
  "show_nat n =
     (if n < 10 then [''0123456789'' ! n]
      else show_nat (n div 10) @ [''0123456789'' ! (n mod 10)])"

declare show_nat.simps [simp del]

text \<open>The own enumerable properties \<^verbatim>\<open>Object.assign\<close> reads from a source value: the
  properties of an object, the indexed elements of an array, the indexed characters of a
  string, nothing for the other primitives. It assigns each to the target; assigning to
  the name \<^verbatim>\<open>__proto__\<close> runs the setter of the prototype and creates no property.\<close>

fun own_props :: "json \<Rightarrow> jsobject" where
  "own_props (JObj kvs) = kvs"
| "own_props (JArr xs) = zip (map show_nat [0..<length xs]) xs"
| "own_props (JStr s) = zip (map show_nat [0..<length s]) (map (\<lambda>c. JStr [c]) s)"
| "own_props v = []"

definition object_assign :: "jsobject \<Rightarrow> json \<Rightarrow> jsobject" where
  "object_assign out src =
     fold (\<lambda>(k, v) acc. if k = ''__proto__'' then acc else AList.update k v acc)
       (own_props src) out"

section \<open>cubeClient.ts: mergeMeta\<close>

text \<open>
  \<^verbatim>\<open>if (msg.k) out.k = msg.k\<close>, the statement mergeMeta repeats for each side channel.
\<close>

definition set_if_truthy :: "string \<Rightarrow> json \<Rightarrow> jsobject \<Rightarrow> jsobject" where
  "set_if_truthy k msg out =
     (case get_prop msg k of
        Some v \<Rightarrow> if truthy v then AList.update k v out else out
      | None \<Rightarrow> out)"

text \<open>The names of the side channels mergeMeta assigns one by one.\<close>

definition channel_keys :: "string list" where
  "channel_keys =
     [''thinking'', ''toolCall'', ''toolCallResult'', ''sqlToolCall'', ''sqlToolCallResult'']"

definition assign_metadata :: "json \<Rightarrow> jsobject \<Rightarrow> jsobject" where
  "assign_metadata msg out =
     (case get_prop msg ''metadata'' of
        Some m \<Rightarrow> if truthy m then object_assign out m else out
      | None \<Rightarrow> out)"

text \<open>The accumulator \<open>base\<close> is \<^verbatim>\<open>undefined\<close> (\<open>None\<close>) before the first merge and an
  object afterwards; \<^verbatim>\<open>{ ...(base || {}) }\<close> copies it.\<close>

definition mergeMeta :: "jsobject option \<Rightarrow> json \<Rightarrow> jsobject" where
  "mergeMeta base msg =
     (let out = or_empty base;
          out = assign_metadata msg out;
          out = set_if_truthy ''thinking'' msg out;
          out = set_if_truthy ''toolCall'' msg out;
          out = set_if_truthy ''toolCallResult'' msg out;
          out = set_if_truthy ''sqlToolCall'' msg out;
          out = set_if_truthy ''sqlToolCallResult'' msg out
      in out)"

section \<open>cubeClient.ts: the read loop of sendToCube\<close>

text \<open>Whitespace removed by \<^verbatim>\<open>String.prototype.trim\<close>, among the code units below 256:
  tab, line feed, vertical tab, form feed, carriage return, space, no-break space.\<close>

definition is_ws :: "char \<Rightarrow> bool" where
  "is_ws c = (c = CHR 0x09 \<or> c = CHR 0x0A \<or> c = CHR 0x0B \<or> c = CHR 0x0C \<or>
              c = CHR 0x0D \<or> c = CHR 0x20 \<or> c = CHR 0xA0)"

definition js_trim :: "string \<Rightarrow> string" where
  "js_trim s = rev (dropWhile is_ws (rev (dropWhile is_ws s)))"

text \<open>\<^verbatim>\<open>s.split("\n")\<close>: the pieces between line feeds; never empty, and one piece longer
  than the number of line feeds.\<close>

fun split_nl :: "string \<Rightarrow> string list" where
  "split_nl [] = [[]]"
| "split_nl (c # cs) =
     (if c = CHR 0x0A then [] # split_nl cs
      else (case split_nl cs of [] \<Rightarrow> [[c]] | l # ls \<Rightarrow> (c # l) # ls))"

text \<open>
  The loop \<^verbatim>\<open>while (true) { read; if (done) break; buffer += decoded; ... }\<close> over the
  chunks of a body that is read to its end; \<open>body\<close> is what the loop does with a line
  that is not blank. The decoder runs in streaming mode, so the chunks are modelled as
  the decoded text. A rejected \<^verbatim>\<open>fetch\<close> or \<^verbatim>\<open>read\<close> (a network failure) is outside the
  model.
\<close>

fun read_loop :: "(string \<Rightarrow> 's \<Rightarrow> 's) \<Rightarrow> string list \<Rightarrow> string \<Rightarrow> 's \<Rightarrow> string \<times> 's" where
  "read_loop body [] buffer s = (buffer, s)"
| "read_loop body (decoded # rest) buffer s =
     (let buffer = buffer @ decoded;
          lines = split_nl buffer;
          buffer = last lines;
          lines = butlast lines
      in read_loop body rest buffer
           (fold (\<lambda>line s. if js_trim line = [] then s else body line s) lines s))"

text \<open>The local variables of sendToCube that outlive a line, and the calls of the
  callback \<^verbatim>\<open>onDelta(chunk, raw)\<close> in the order they are made. The callback is synchronous
  and touches only its own closure, so the caller replays the recorded calls.\<close>

record stream_state =
  assistantText :: string
  lastMetadata :: "jsobject option"
  streamingStarted :: bool
  onDelta_calls :: "(string \<times> json) list"

definition initial_state :: stream_state where
  "initial_state =
     \<lparr>assistantText = [], lastMetadata = None, streamingStarted = False, onDelta_calls = []\<rparr>"

text \<open>The five statements both paths end with: merge, forward the raw envelope, and
  for assistant text append it and forward the fragment.\<close>

definition merge_and_forward :: "json \<Rightarrow> stream_state \<Rightarrow> stream_state" where
  "merge_and_forward msg s =
     (let s = s\<lparr>lastMetadata := Some (mergeMeta (lastMetadata s) msg)\<rparr>;
          s = s\<lparr>onDelta_calls := onDelta_calls s @ [([], msg)]\<rparr>
      in (case get_prop msg ''content'' of
            Some (JStr content) \<Rightarrow>
              if get_prop msg ''role'' = Some (JStr ''assistant'')
              then s\<lparr>assistantText := assistantText s @ content,
                      onDelta_calls := onDelta_calls s @ [(content, msg)]\<rparr>
              else s
          | _ \<Rightarrow> s))"

text \<open>\<^verbatim>\<open>msg.state?.isStreaming === true\<close>\<close>

definition isStreaming_true :: "json \<Rightarrow> bool" where
  "isStreaming_true msg = (opt_prop (get_prop msg ''state'') ''isStreaming'' = Some (JBool True))"

text \<open>The body of the \<^verbatim>\<open>try\<close> in the loop, after \<^verbatim>\<open>JSON.parse\<close>. A parsed \<^verbatim>\<open>null\<close> makes
  \<^verbatim>\<open>msg.role\<close> throw, which the \<^verbatim>\<open>catch\<close> turns into a skipped line.\<close>

definition on_message :: "json \<Rightarrow> stream_state \<Rightarrow> stream_state" where
  "on_message msg s =
     (if msg = JNull then s
      else if get_prop msg ''role'' = Some (JStr ''user'') then s
      else if get_prop msg ''id'' = Some (JStr ''__cutoff__'')
        then s\<lparr>streamingStarted := isStreaming_true msg\<rparr>
      else if \<not> streamingStarted s then s
      else merge_and_forward msg s)"

text \<open>An envelope that reaches the merge when the gate is open: it is not \<^verbatim>\<open>null\<close>, not
  an echo of the user and not the cutoff marker.\<close>

definition accepted :: "json \<Rightarrow> bool" where
  "accepted msg =
     (msg \<noteq> JNull \<and> get_prop msg ''role'' \<noteq> Some (JStr ''user'') \<and>
      get_prop msg ''id'' \<noteq> Some (JStr ''__cutoff__''))"

text \<open>The body of the \<^verbatim>\<open>try\<close> for the trailing line, after \<^verbatim>\<open>JSON.parse\<close>.\<close>

definition on_trailing_message :: "json \<Rightarrow> stream_state \<Rightarrow> stream_state" where
  "on_trailing_message msg s =
     (if msg = JNull then s
      else
        let s = (if get_prop msg ''id'' = Some (JStr ''__cutoff__'')
                 then s\<lparr>streamingStarted := isStreaming_true msg\<rparr> else s)
        in if streamingStarted s \<and> get_prop msg ''role'' \<noteq> Some (JStr ''user'')
           then merge_and_forward msg s else s)"

text \<open>\<^verbatim>\<open>JSON.parse\<close> is the platform's: \<open>parse\<close> is a parameter, \<open>None\<close> when it throws
  (the line is then logged and skipped).\<close>

definition on_line :: "(string \<Rightarrow> json option) \<Rightarrow> string \<Rightarrow> stream_state \<Rightarrow> stream_state" where
  "on_line parse line s = (case parse line of None \<Rightarrow> s | Some msg \<Rightarrow> on_message msg s)"

definition on_trailing :: "(string \<Rightarrow> json option) \<Rightarrow> string \<Rightarrow> stream_state \<Rightarrow> stream_state" where
  "on_trailing parse buffer s =
     (if js_trim buffer = [] then s
      else (case parse buffer of None \<Rightarrow> s | Some msg \<Rightarrow> on_trailing_message msg s))"

definition run_stream :: "(string \<Rightarrow> json option) \<Rightarrow> string list \<Rightarrow> stream_state" where
  "run_stream parse chunks =
     (case read_loop (on_line parse) chunks [] initial_state of
        (buffer, s) \<Rightarrow> on_trailing parse buffer s)"

text \<open>The upstream response as \<^verbatim>\<open>fetch\<close> resolves it, the errors thrown (\<open>CubeApiHttp n\<close>
  is \<^verbatim>\<open>new Error(`Cube API HTTP ${res.status}`)\<close>), and the result of sendToCube.\<close>

record http_response =
  res_ok :: bool
  res_status :: nat
  res_body :: "string list option"

datatype error = NotConfigured | CubeApiHttp nat | SqliteError string

record cube_result =
  message :: string
  metadata :: "jsobject option"

definition sendToCube ::
  "bool \<Rightarrow> (string \<Rightarrow> json option) \<Rightarrow> http_response \<Rightarrow>
     error + (cube_result \<times> (string \<times> json) list)" where
  "sendToCube configured parse res =
     (if \<not> configured then Inl NotConfigured
      else (case res_body res of
              None \<Rightarrow> Inl (CubeApiHttp (res_status res))
            | Some chunks \<Rightarrow>
                if \<not> res_ok res then Inl (CubeApiHttp (res_status res))
                else
                  let s = run_stream parse chunks
                  in Inr (\<lparr>message = (if assistantText s = [] then ''No response''
                                        else assistantText s),
                            metadata = lastMetadata s\<rparr>,
                          onDelta_calls s)))"

text \<open>The four lines of the example scenario and the envelopes \<^verbatim>\<open>JSON.parse\<close> returns
  for them; \<open>scenario_parse\<close> is a parser that knows these lines only.\<close>

definition scenario_lines :: "string list" where
  "scenario_lines =
     [''{\"role\":\"user\",\"content\":\"hi\"}'',
      ''{\"id\":\"__cutoff__\",\"state\":{\"isStreaming\":true}}'',
      ''{\"role\":\"assistant\",\"content\":\"Sales \"}'',
      ''{\"role\":\"assistant\",\"content\":\"are up.\"}'']"

definition scenario_envelopes :: "json list" where
  "scenario_envelopes =
     [JObj [(''role'', JStr ''user''), (''content'', JStr ''hi'')],
      JObj [(''id'', JStr ''__cutoff__''), (''state'', JObj [(''isStreaming'', JBool True)])],
      JObj [(''role'', JStr ''assistant''), (''content'', JStr ''Sales '')],
      JObj [(''role'', JStr ''assistant''), (''content'', JStr ''are up.'')]]"

definition scenario_parse :: "string \<Rightarrow> json option" where
  "scenario_parse = map_of (zip scenario_lines scenario_envelopes)"

text \<open>The lines the loop hands to \<^verbatim>\<open>JSON.parse\<close>, in order: the read loop with a body
  that records its line, then the trailing buffer if it is not blank.\<close>

definition framed_lines :: "string list \<Rightarrow> string list" where
  "framed_lines chunks =
     (case read_loop (\<lambda>line yielded. yielded @ [line]) chunks [] [] of
        (buffer, yielded) \<Rightarrow> if js_trim buffer = [] then yielded else yielded @ [buffer])"

section \<open>repo.ts over the tables of db.ts\<close>

text \<open>
  The two tables the chat route uses, as lists of rows in insertion order. The
  \<^verbatim>\<open>created_at\<close> column and the row id of a message are never read back by the
  operations below and are left out. The \<^verbatim>\<open>metadata\<close> column holds
  \<^verbatim>\<open>JSON.stringify(msg.metadata ?? null)\<close> and is read with \<^verbatim>\<open>JSON.parse\<close>; the row
  stores the JSON value itself. \<open>foreign_keys\<close> is the connection's pragma, which decides
  whether the declared foreign key of \<^verbatim>\<open>messages.conversation_id\<close> is enforced.
\<close>

record MessagePayload =
  role :: string
  content :: string
  timestamp :: string
  payload_metadata :: "json option"

record conversation_row =
  conv_id :: string
  conv_user_id :: string
  conv_title :: "string option"

record message_row =
  row_conversation_id :: string
  row_role :: string
  row_content :: string
  row_timestamp :: string
  row_metadata :: json

record database =
  foreign_keys :: bool
  conversations :: "conversation_row list"
  messages :: "message_row list"

text \<open>\<open>uuid\<close> is the value \<^verbatim>\<open>uuidv4()\<close> returns; the insert fails on a primary key that
  already exists.\<close>

definition createConversation ::
  "database \<Rightarrow> string \<Rightarrow> string \<Rightarrow> string option \<Rightarrow> error + (string \<times> database)" where
  "createConversation db uuid userId title =
     (if uuid \<in> set (map conv_id (conversations db))
      then Inl (SqliteError ''UNIQUE constraint failed: conversations.id'')
      else Inr (uuid,
                db\<lparr>conversations := conversations db @
                     [\<lparr>conv_id = uuid, conv_user_id = userId, conv_title = title\<rparr>]\<rparr>))"

definition addMessage :: "database \<Rightarrow> string \<Rightarrow> MessagePayload \<Rightarrow> error + database" where
  "addMessage db conversationId msg =
     (if foreign_keys db \<and> conversationId \<notin> set (map conv_id (conversations db))
      then Inl (SqliteError ''FOREIGN KEY constraint failed'')
      else Inr (db\<lparr>messages := messages db @
                  [\<lparr>row_conversation_id = conversationId, row_role = role msg,
                    row_content = content msg, row_timestamp = timestamp msg,
                    row_metadata = (case payload_metadata msg of None \<Rightarrow> JNull | Some m \<Rightarrow> m)\<rparr>]\<rparr>))"

text \<open>\<^verbatim>\<open>ORDER BY timestamp ASC\<close> compares the text bytewise; rows with equal timestamps
  keep their insertion order here. The stored metadata text is never empty, so it is
  always parsed.\<close>

definition listMessages :: "database \<Rightarrow> string \<Rightarrow> string \<Rightarrow> MessagePayload list option" where
  "listMessages db conversationId userId =
     (if \<not> list_ex (\<lambda>c. conv_id c = conversationId \<and> conv_user_id c = userId) (conversations db)
      then None
      else Some (map (\<lambda>r. \<lparr>role = row_role r, content = row_content r,
                             timestamp = row_timestamp r,
                             payload_metadata = Some (row_metadata r)\<rparr>)
                   (sort_key row_timestamp
                      (filter (\<lambda>r. row_conversation_id r = conversationId) (messages db)))))"

section \<open>The route POST /api/chat\<close>

datatype downstream =
    Delta string
  | Event json
  | Done string "MessagePayload list"

text \<open>The response as the handler leaves it: the status, the lines written with
  \<^verbatim>\<open>res.write\<close>, the body sent with \<^verbatim>\<open>res.json\<close>, and whether \<^verbatim>\<open>res.end\<close> was called. The
  outcome of the handler is that response with the error the handler throws, if it
  throws. The handler flushes the headers before anything in it can throw, so what the
  error middleware (\<^verbatim>\<open>res.status(500).json(...)\<close>) can still send lies with the framework
  and is not modelled.\<close>

record response =
  status :: nat
  written :: "downstream list"
  json_body :: "json option"
  ended :: bool

record outcome = response +
  thrown :: "error option"

definition fresh_response :: outcome where
  "fresh_response =
     \<lparr>status = 200, written = [], json_body = None, ended = False, thrown = None\<rparr>"

definition starts_with :: "string \<Rightarrow> string \<Rightarrow> bool" where
  "starts_with s p = (take (length p) s = p)"

text \<open>\<^verbatim>\<open>raw && (raw.thinking || raw.toolCall || ... || raw.query)\<close>\<close>

definition has_side_channel :: "json \<Rightarrow> bool" where
  "has_side_channel raw =
     (truthy raw \<and>
      (truthy_opt (get_prop raw ''thinking'') \<or> truthy_opt (get_prop raw ''toolCall'') \<or>
       truthy_opt (get_prop raw ''toolCallResult'') \<or> truthy_opt (get_prop raw ''sqlToolCall'') \<or>
       truthy_opt (get_prop raw ''sqlToolCallResult'') \<or> truthy_opt (get_prop raw ''chartType'') \<or>
       truthy_opt (get_prop raw ''visualization'') \<or> truthy_opt (get_prop raw ''query'')))"

text \<open>The callback the route passes to sendToCube. Its closure holds \<^verbatim>\<open>assistantAccum\<close>
  and the response it writes to.\<close>

definition onDelta :: "string \<times> json \<Rightarrow> string \<times> downstream list \<Rightarrow> string \<times> downstream list" where
  "onDelta call closure =
     (case call of (chunk, raw) \<Rightarrow>
      (case closure of (assistantAccum, out) \<Rightarrow>
        let delta = (if starts_with chunk assistantAccum
                     then drop (length assistantAccum) chunk else chunk);
            assistantAccum = (if delta \<noteq> [] then assistantAccum @ delta else assistantAccum);
            out = (if delta \<noteq> [] then out @ [Delta delta] else out);
            out = (if has_side_channel raw then out @ [Event raw] else out)
        in (assistantAccum, out)))"

text \<open>The contents of the delta lines among the lines written, in order.\<close>

fun delta_contents :: "downstream list \<Rightarrow> string list" where
  "delta_contents [] = []"
| "delta_contents (Delta c # ds) = c # delta_contents ds"
| "delta_contents (d # ds) = delta_contents ds"

text \<open>A sequence of chunks handed to the callback, with \<open>acc\<close> the text it has emitted
  before them, in which no chunk that is not empty begins with all the text emitted
  before it.\<close>

fun clash_free :: "string \<Rightarrow> string list \<Rightarrow> bool" where
  "clash_free acc [] = True"
| "clash_free acc (c # cs) =
     ((c = [] \<or> acc = [] \<or> \<not> starts_with c acc) \<and> clash_free (acc @ c) cs)"

text \<open>What the route takes from outside: the request body, the configuration, the
  platform's parser, the response of the upstream \<^verbatim>\<open>fetch\<close>, the identifier
  \<^verbatim>\<open>uuidv4()\<close> returns and the two clock readings \<^verbatim>\<open>new Date().toISOString()\<close>.\<close>

record chat_request =
  req_userId :: "string option"
  req_content :: "string option"
  req_conversationId :: "string option"

record environment =
  configured :: bool
  parse :: "string \<Rightarrow> json option"
  upstream :: http_response
  uuid :: string
  now_start :: string
  now_end :: string

text \<open>\<^verbatim>\<open>const { userId = 'anonymous', ... } = req.body\<close>\<close>

definition userId_of :: "chat_request \<Rightarrow> string" where
  "userId_of req = (case req_userId req of None \<Rightarrow> ''anonymous'' | Some u \<Rightarrow> u)"

text \<open>The handler of the route. It returns the database and the outcome as they are when
  the handler returns or throws.\<close>

definition post_chat :: "environment \<Rightarrow> database \<Rightarrow> chat_request \<Rightarrow> database \<times> outcome" where
  "post_chat env db req =
     (let userId = userId_of req;
          res = fresh_response
      in
      if req_content req = None \<or> req_content req = Some []
      then (db, res\<lparr>status := 400,
                     json_body := Some (JObj [(''error'', JStr ''content required'')])\<rparr>)
      else
        let content = (case req_content req of None \<Rightarrow> [] | Some c \<Rightarrow> c);
            ts = now_start env
        in
        (case (if req_conversationId req = None \<or> req_conversationId req = Some []
               then createConversation db (uuid env) userId (Some (take 50 content))
               else Inr ((case req_conversationId req of None \<Rightarrow> [] | Some c \<Rightarrow> c), db)) of
           Inl err \<Rightarrow> (db, res\<lparr>thrown := Some err\<rparr>)
         | Inr (convoId, db) \<Rightarrow>
            let userMessage = \<lparr>role = ''user'', content = content, timestamp = ts,
                               payload_metadata = None\<rparr>
            in
            (case addMessage db convoId userMessage of
               Inl err \<Rightarrow> (db, res\<lparr>thrown := Some err\<rparr>)
             | Inr db \<Rightarrow>
                (case sendToCube (configured env) (parse env) (upstream env) of
                   Inl err \<Rightarrow> (db, res\<lparr>thrown := Some err\<rparr>)
                 | Inr (cubeResponse, calls) \<Rightarrow>
                    let closure = fold onDelta calls ([], []);
                        res = res\<lparr>written := snd closure\<rparr>;
                        assistantText = message cubeResponse;
                        lastMetadata = map_option JObj (metadata cubeResponse);
                        assistantMessage = \<lparr>role = ''assistant'', content = assistantText,
                                            timestamp = now_end env,
                                            payload_metadata = lastMetadata\<rparr>
                    in
                    (case addMessage db convoId assistantMessage of
                       Inl err \<Rightarrow> (db, res\<lparr>thrown := Some err\<rparr>)
                     | Inr db \<Rightarrow>
                        let updatedMessages = or_empty (listMessages db convoId userId)
                        in (db, res\<lparr>written := written res @ [Done convoId updatedMessages],
                                     ended := True\<rparr>))))))"

section \<open>App.tsx: the reducer for an event envelope\<close>

text \<open>
  A segment is its \<^verbatim>\<open>type\<close> tag with its \<^verbatim>\<open>value\<close>. The value of a \<^verbatim>\<open>toolCall\<close> segment is
  the object \<^verbatim>\<open>{ call, result }\<close>, whose \<^verbatim>\<open>result\<close> is left out when it is \<^verbatim>\<open>undefined\<close>,
  as \<^verbatim>\<open>JSON.stringify\<close> prints it. The code compares two values by comparing their
  \<^verbatim>\<open>JSON.stringify\<close> texts; on parsed JSON that is equality of the values, property
  order included, and it is modelled as equality.
\<close>

datatype segment =
    Thinking string
  | Text string
  | ToolCall json
  | ToolResult json
  | Sql json
  | SqlResult json













section \<open>Properties of mergeMeta\<close>

lemma fold_assign_keys:
  "fst ` set out \<subseteq>
   fst ` set (fold (\<lambda>(k, v) acc. if k = ''__proto__'' then acc else AList.update k v acc) kvs out)"
proof (induction kvs arbitrary: out)
  case Nil
  show ?case by simp
next
  case (Cons kv kvs)
  obtain k v where kv: "kv = (k, v)" by (cases kv)
  have "fst ` set out \<subseteq> fst ` set (if k = ''__proto__'' then out else AList.update k v out)"
    by (auto simp: dom_update)
  also have "\<dots> \<subseteq> fst ` set (fold (\<lambda>(k, v) acc. if k = ''__proto__'' then acc
      else AList.update k v acc) kvs (if k = ''__proto__'' then out else AList.update k v out))"
    by (rule Cons.IH)
  finally show ?case
    unfolding kv by simp
qed

lemma object_assign_keys: "fst ` set out \<subseteq> fst ` set (object_assign out src)"
  by (simp add: object_assign_def fold_assign_keys)

lemma assign_metadata_keys: "fst ` set out \<subseteq> fst ` set (assign_metadata msg out)"
  by (simp add: assign_metadata_def object_assign_keys split: option.splits)

lemma set_if_truthy_keys: "fst ` set out \<subseteq> fst ` set (set_if_truthy k msg out)"
  by (simp add: set_if_truthy_def dom_update subset_insertI split: option.splits)

lemma map_of_fold_assign_other:
  "k \<notin> fst ` set kvs \<Longrightarrow>
   map_of (fold (\<lambda>(k, v) acc. if k = ''__proto__'' then acc else AList.update k v acc) kvs out) k
     = map_of out k"
  by (induction kvs arbitrary: out) (auto simp: update_conv')

lemma map_of_set_if_truthy:
  "map_of (set_if_truthy k' msg out) k =
     (if k = k' \<and> truthy_opt (get_prop msg k') then get_prop msg k' else map_of out k)"
  by (auto simp: set_if_truthy_def update_conv' split: option.splits)

lemma map_of_mergeMeta:
  "map_of (mergeMeta base msg) k =
     (if k \<in> set channel_keys \<and> truthy_opt (get_prop msg k) then get_prop msg k
      else map_of (assign_metadata msg (or_empty base)) k)"
  by (auto simp add: mergeMeta_def Let_def map_of_set_if_truthy channel_keys_def)

lemma map_of_assign_metadata_other:
  "(case get_prop msg ''metadata'' of None \<Rightarrow> True | Some m \<Rightarrow> k \<notin> fst ` set (own_props m)) \<Longrightarrow>
   map_of (assign_metadata msg out) k = map_of out k"
  by (auto simp: assign_metadata_def object_assign_def map_of_fold_assign_other split: option.splits)

lemma mergeMeta_keys: "fst ` set (or_empty base) \<subseteq> fst ` set (mergeMeta base msg)"
proof
  fix k assume k: "k \<in> fst ` set (or_empty base)"
  have step: "\<And>c out. k \<in> fst ` set out \<Longrightarrow> k \<in> fst ` set (set_if_truthy c msg out)"
    using set_if_truthy_keys by blast
  from k have "k \<in> fst ` set (assign_metadata msg (or_empty base))"
    using assign_metadata_keys by blast
  then show "k \<in> fst ` set (mergeMeta base msg)"
    unfolding mergeMeta_def Let_def by (intro step)
qed

text \<open>
  Claim C10, as the code has it. A side channel whose value in the envelope is falsy
  (\<^verbatim>\<open>null\<close>, the empty string, \<^verbatim>\<open>false\<close>, zero) or missing is not assigned: under its name
  the result holds what the accumulator holds once the envelope's \<^verbatim>\<open>metadata\<close> object has
  been copied in. That is the previous value whenever \<^verbatim>\<open>metadata\<close> has no property of
  that name; and a falsy \<^verbatim>\<open>metadata\<close> copies nothing.
\<close>

theorem falsy_channel_not_merged:
  "(k \<in> set channel_keys \<and> \<not> truthy_opt (get_prop msg k) \<and>
      (case get_prop msg ''metadata'' of None \<Rightarrow> True | Some m \<Rightarrow> k \<notin> fst ` set (own_props m))
      \<longrightarrow> map_of (mergeMeta base msg) k = map_of (or_empty base) k)
   \<and> (k \<in> set channel_keys \<and> \<not> truthy_opt (get_prop msg k)
      \<longrightarrow> map_of (mergeMeta base msg) k = map_of (assign_metadata msg (or_empty base)) k)
   \<and> (\<not> truthy_opt (get_prop msg ''metadata'') \<longrightarrow> assign_metadata msg out = out)"
proof (intro conjI impI)
  assume "k \<in> set channel_keys \<and> \<not> truthy_opt (get_prop msg k) \<and>
      (case get_prop msg ''metadata'' of None \<Rightarrow> True | Some m \<Rightarrow> k \<notin> fst ` set (own_props m))"
  then show "map_of (mergeMeta base msg) k = map_of (or_empty base) k"
    by (simp add: map_of_mergeMeta map_of_assign_metadata_other)
next
  assume "k \<in> set channel_keys \<and> \<not> truthy_opt (get_prop msg k)"
  then show "map_of (mergeMeta base msg) k = map_of (assign_metadata msg (or_empty base)) k"
    by (simp add: map_of_mergeMeta)
next
  assume "\<not> truthy_opt (get_prop msg ''metadata'')"
  then show "assign_metadata msg out = out"
    by (auto simp: assign_metadata_def split: option.splits)
qed

theorem falsy_channel_not_merged_witness:
  "get_prop (JObj [(''thinking'', JStr []), (''toolCall'', JNull), (''metadata'', JNull)]) ''thinking''
     = Some (JStr [])
   \<and> map_of (mergeMeta (Some [(''thinking'', JStr ''foo''), (''toolCall'', JNum 1)])
        (JObj [(''thinking'', JStr []), (''toolCall'', JNull), (''metadata'', JNull)])) ''thinking''
     = Some (JStr ''foo'')
   \<and> assign_metadata (JObj [(''thinking'', JStr []), (''toolCall'', JNull), (''metadata'', JNull)])
        [(''chartType'', JStr ''bar'')] = [(''chartType'', JStr ''bar'')]"
  using falsy_channel_not_merged [of "''thinking''"
      "JObj [(''thinking'', JStr []), (''toolCall'', JNull), (''metadata'', JNull)]"
      "Some [(''thinking'', JStr ''foo''), (''toolCall'', JNum 1)]"
      "[(''chartType'', JStr ''bar'')]"]
  by (simp add: channel_keys_def or_empty_def)

text \<open>
  Claim C10 as stated fails when the envelope's own \<^verbatim>\<open>metadata\<close> object carries the name:
  with the accumulator \<^verbatim>\<open>{toolCall: 1}\<close> and the envelope
  \<^verbatim>\<open>{metadata: {toolCall: 2}, toolCall: null}\<close> the key does not keep its value.
\<close>

theorem falsy_channel_counterexample:
  "get_prop (JObj [(''metadata'', JObj [(''toolCall'', JNum 2)]), (''toolCall'', JNull)]) ''toolCall''
     = Some JNull
   \<and> map_of (or_empty (Some [(''toolCall'', JNum 1)])) ''toolCall'' = Some (JNum 1)
   \<and> map_of (mergeMeta (Some [(''toolCall'', JNum 1)])
        (JObj [(''metadata'', JObj [(''toolCall'', JNum 2)]), (''toolCall'', JNull)])) ''toolCall''
     = Some (JNum 2)"
  by (simp add: mergeMeta_def or_empty_def assign_metadata_def set_if_truthy_def object_assign_def)

section \<open>Properties of the gate and the merge in sendToCube\<close>

lemma on_message_suppressed:
  "\<not> streamingStarted s \<Longrightarrow> get_prop m ''id'' \<noteq> Some (JStr ''__cutoff__'') \<Longrightarrow> on_message m s = s"
  by (simp add: on_message_def)

lemma fold_on_message_suppressed:
  "\<not> streamingStarted s \<Longrightarrow> \<forall>m\<in>set pre. get_prop m ''id'' \<noteq> Some (JStr ''__cutoff__'') \<Longrightarrow>
   fold on_message pre s = s"
  by (induction pre) (simp_all add: on_message_suppressed)

lemma on_message_cutoff:
  "get_prop c ''id'' = Some (JStr ''__cutoff__'') \<Longrightarrow> get_prop c ''role'' \<noteq> Some (JStr ''user'') \<Longrightarrow>
   on_message c s = s\<lparr>streamingStarted := isStreaming_true c\<rparr>"
  by (auto simp: on_message_def)

lemma streaming_stays:
  "streamingStarted s \<Longrightarrow> accepted e \<Longrightarrow> streamingStarted (on_message e s)"
  by (auto simp: on_message_def accepted_def merge_and_forward_def Let_def
      split: option.splits json.splits)

lemma on_message_accepted:
  "streamingStarted s \<Longrightarrow> accepted e \<Longrightarrow> on_message e s = merge_and_forward e s"
  by (simp add: on_message_def accepted_def)

lemma lastMetadata_merge_and_forward:
  "lastMetadata (merge_and_forward e s) = Some (mergeMeta (lastMetadata s) e)"
  by (auto simp: merge_and_forward_def Let_def split: option.splits json.splits)

lemma merge_and_forward_keys:
  "fst ` set (or_empty (lastMetadata s)) \<subseteq> fst ` set (or_empty (lastMetadata (merge_and_forward m s)))"
  using mergeMeta_keys [of "lastMetadata s" m]
  by (simp add: lastMetadata_merge_and_forward or_empty_def [of "Some _"])

lemma on_message_keys:
  "fst ` set (or_empty (lastMetadata s)) \<subseteq> fst ` set (or_empty (lastMetadata (on_message m s)))"
  using merge_and_forward_keys [of s m] by (simp add: on_message_def)

lemma on_trailing_message_keys:
  "fst ` set (or_empty (lastMetadata s)) \<subseteq>
   fst ` set (or_empty (lastMetadata (on_trailing_message m s)))"
  using merge_and_forward_keys [of "s\<lparr>streamingStarted := True\<rparr>" m]
    merge_and_forward_keys [of s m]
  by (auto simp: on_trailing_message_def Let_def)

lemma fold_on_message_keys:
  "fst ` set (or_empty (lastMetadata s)) \<subseteq>
   fst ` set (or_empty (lastMetadata (fold on_message ms s)))"
proof (induction ms arbitrary: s)
  case Nil
  show ?case by simp
next
  case (Cons m ms)
  show ?case
    using on_message_keys [of s m] Cons.IH [of "on_message m s"] by simp
qed

text \<open>
  Claim C9. A merge never deletes: every key the accumulator has before mergeMeta is a
  key of the object mergeMeta returns, for every accumulator (\<^verbatim>\<open>undefined\<close> included) and
  every envelope; the value under the key may be a new one. The accumulator of
  sendToCube changes through mergeMeta only, so a key it has at some point of the turn it
  still has after any further lines and the trailing line.
\<close>

theorem mergeMeta_never_deletes:
  "(k \<in> fst ` set (or_empty base) \<longrightarrow> k \<in> fst ` set (mergeMeta base msg))
   \<and> (k \<in> fst ` set (or_empty (lastMetadata s)) \<longrightarrow>
        k \<in> fst ` set (or_empty (lastMetadata (on_trailing_message m (fold on_message ms s)))))"
  using mergeMeta_keys [of base msg] fold_on_message_keys [of s ms]
    on_trailing_message_keys [of "fold on_message ms s" m]
  by blast

theorem mergeMeta_never_deletes_witness:
  "''chartType'' \<in> fst ` set (or_empty (Some [(''chartType'', JStr ''bar''), (''toolCall'', JNum 1)]))
   \<and> ''chartType'' \<in> fst ` set
        (mergeMeta (Some [(''chartType'', JStr ''bar''), (''toolCall'', JNum 1)])
           (JObj [(''toolCall'', JNum 2), (''metadata'', JObj [(''chartType'', JStr ''line'')])]))
   \<and> ''chartType'' \<in> fst ` set (or_empty (lastMetadata
        (on_trailing_message (JObj [(''toolCall'', JNum 3)])
           (fold on_message [JObj [(''thinking'', JStr ''t'')]]
              (initial_state\<lparr>streamingStarted := True,
                 lastMetadata := Some [(''chartType'', JStr ''bar'')]\<rparr>)))))"
  using mergeMeta_never_deletes [of "''chartType''"
      "Some [(''chartType'', JStr ''bar''), (''toolCall'', JNum 1)]"
      "JObj [(''toolCall'', JNum 2), (''metadata'', JObj [(''chartType'', JStr ''line'')])]"
      "initial_state\<lparr>streamingStarted := True, lastMetadata := Some [(''chartType'', JStr ''bar'')]\<rparr>"
      "JObj [(''toolCall'', JNum 3)]" "[JObj [(''thinking'', JStr ''t'')]]"]
  by (simp add: or_empty_def initial_state_def)

text \<open>
  Claim C1, as the code has it. With the gate open, after two accepted envelopes the
  accumulator holds, under each side channel the second envelope carries with a truthy
  value, exactly that value: for \<^verbatim>\<open>toolCall\<close> the later call \<open>Y\<close>, and for \<^verbatim>\<open>thinking\<close> the
  later fragment alone, which replaces the earlier one.
\<close>

theorem later_value_replaces:
  assumes "streamingStarted s" and "accepted e1" and "accepted e2"
    and "k \<in> set channel_keys" and "get_prop e2 k = Some y" and "truthy y"
  shows "map_of (or_empty (lastMetadata (on_message e2 (on_message e1 s)))) k = Some y"
proof -
  have on: "streamingStarted (on_message e1 s)"
    using assms(1,2) by (rule streaming_stays)
  have "on_message e2 (on_message e1 s) = merge_and_forward e2 (on_message e1 s)"
    using on assms(3) by (rule on_message_accepted)
  then show ?thesis
    using assms(4-6) by (simp add: lastMetadata_merge_and_forward or_empty_def map_of_mergeMeta)
qed

theorem later_value_replaces_witness:
  "map_of (or_empty (lastMetadata
      (on_message (JObj [(''toolCall'', JStr ''Y'')])
         (on_message (JObj [(''toolCall'', JStr ''X'')])
            (initial_state\<lparr>streamingStarted := True\<rparr>))))) ''toolCall'' = Some (JStr ''Y'')"
  using later_value_replaces [of "initial_state\<lparr>streamingStarted := True\<rparr>"
      "JObj [(''toolCall'', JStr ''X'')]" "JObj [(''toolCall'', JStr ''Y'')]" "''toolCall''" "JStr ''Y''"]
  by (simp add: accepted_def channel_keys_def)

text \<open>
  Claim C1 as stated fails for \<^verbatim>\<open>thinking\<close>: after the cutoff, \<^verbatim>\<open>{thinking:"foo"}\<close> then
  \<^verbatim>\<open>{thinking:"bar"}\<close> leave the thinking \<^verbatim>\<open>"bar"\<close>, in which \<^verbatim>\<open>"foo"\<close> does not occur. And a
  later \<^verbatim>\<open>{toolCall: null}\<close> does not win over an earlier call.
\<close>

theorem thinking_replaced_counterexample:
  "lastMetadata (fold on_message
      [scenario_envelopes ! 1, JObj [(''thinking'', JStr ''foo'')], JObj [(''thinking'', JStr ''bar'')]]
      initial_state) = Some [(''thinking'', JStr ''bar'')]
   \<and> lastMetadata (fold on_message
      [scenario_envelopes ! 1, JObj [(''toolCall'', JNum 1)], JObj [(''toolCall'', JNull)]]
      initial_state) = Some [(''toolCall'', JNum 1)]"
  by (simp add: scenario_envelopes_def on_message_def initial_state_def isStreaming_true_def
      merge_and_forward_def mergeMeta_def or_empty_def assign_metadata_def set_if_truthy_def)

text \<open>
  The gate, for a cutoff marker whose \<^verbatim>\<open>role\<close> is not \<^verbatim>\<open>"user"\<close>. While the gate is closed,
  the envelopes that come before the marker change nothing, in the loop or as the
  trailing line: no text, no metadata, no call of the callback. The marker sets the gate
  to whether its \<^verbatim>\<open>state.isStreaming\<close> is \<^verbatim>\<open>true\<close>, whatever the gate was, and changes
  nothing else; so the whole sequence leaves what the envelopes after the marker leave.
\<close>

lemma replay_gate:
  "\<not> streamingStarted s \<and> (\<forall>m\<in>set pre. get_prop m ''id'' \<noteq> Some (JStr ''__cutoff__'')) \<and>
   get_prop c ''id'' = Some (JStr ''__cutoff__'') \<and> get_prop c ''role'' \<noteq> Some (JStr ''user'')
   \<longrightarrow> fold on_message pre s = s
     \<and> (\<forall>m\<in>set pre. on_trailing_message m s = s)
     \<and> on_message c t = t\<lparr>streamingStarted := isStreaming_true c\<rparr>
     \<and> fold on_message (pre @ c # post) s =
         fold on_message post (s\<lparr>streamingStarted := isStreaming_true c\<rparr>)"
proof (intro impI, elim conjE)
  assume off: "\<not> streamingStarted s"
    and pre: "\<forall>m\<in>set pre. get_prop m ''id'' \<noteq> Some (JStr ''__cutoff__'')"
    and c: "get_prop c ''id'' = Some (JStr ''__cutoff__'')"
      "get_prop c ''role'' \<noteq> Some (JStr ''user'')"
  have 1: "fold on_message pre s = s"
    using off pre by (rule fold_on_message_suppressed)
  have 2: "\<forall>m\<in>set pre. on_trailing_message m s = s"
    using off pre by (auto simp: on_trailing_message_def)
  have 3: "\<And>t. on_message c t = t\<lparr>streamingStarted := isStreaming_true c\<rparr>"
    using c by (rule on_message_cutoff)
  show "fold on_message pre s = s
     \<and> (\<forall>m\<in>set pre. on_trailing_message m s = s)
     \<and> on_message c t = t\<lparr>streamingStarted := isStreaming_true c\<rparr>
     \<and> fold on_message (pre @ c # post) s =
         fold on_message post (s\<lparr>streamingStarted := isStreaming_true c\<rparr>)"
    using 1 2 3 by simp
qed

text \<open>The two examples of the gate: \<^verbatim>\<open>[A, B, cutoff(isStreaming=true), C, D]\<close> leaves what
  \<^verbatim>\<open>C\<close> and \<^verbatim>\<open>D\<close> leave, and \<^verbatim>\<open>[A, cutoff(isStreaming=false), C]\<close> leaves nothing.\<close>

lemma replay_gate_examples:
  "assistantText (fold on_message
       [JObj [(''role'', JStr ''assistant''), (''content'', JStr ''old answer'')],
        JObj [(''thinking'', JStr ''old thought'')],
        scenario_envelopes ! 1, scenario_envelopes ! 2, scenario_envelopes ! 3]
       initial_state) = ''Sales are up.''
   \<and> fold on_message
       [JObj [(''role'', JStr ''assistant''), (''content'', JStr ''old answer'')],
        JObj [(''id'', JStr ''__cutoff__''), (''state'', JObj [(''isStreaming'', JBool False)])],
        scenario_envelopes ! 2]
       initial_state = initial_state"
  using replay_gate [of initial_state
      "[JObj [(''role'', JStr ''assistant''), (''content'', JStr ''old answer'')],
        JObj [(''thinking'', JStr ''old thought'')]]"
      "scenario_envelopes ! 1" initial_state "[scenario_envelopes ! 2, scenario_envelopes ! 3]"]
    replay_gate [of initial_state
      "[JObj [(''role'', JStr ''assistant''), (''content'', JStr ''old answer'')]]"
      "JObj [(''id'', JStr ''__cutoff__''), (''state'', JObj [(''isStreaming'', JBool False)])]"
      initial_state "[scenario_envelopes ! 2]"]
  by (simp add: scenario_envelopes_def initial_state_def isStreaming_true_def on_message_def
      merge_and_forward_def)

text \<open>
  Claim C2 at its failing input. A cutoff marker with \<^verbatim>\<open>isStreaming\<close> true that also
  carries \<^verbatim>\<open>role: "user"\<close> does not open the gate when it comes as a line of the loop: the
  loop drops it as an echo of the user before it looks at the \<^verbatim>\<open>id\<close>, and the assistant
  envelope after it is suppressed. The trailing path looks at the \<^verbatim>\<open>id\<close> first and sets the
  gate for the same marker.
\<close>

theorem user_role_cutoff_dropped:
  "isStreaming_true (JObj [(''id'', JStr ''__cutoff__''), (''role'', JStr ''user''),
      (''state'', JObj [(''isStreaming'', JBool True)])])
   \<and> fold on_message
       [JObj [(''id'', JStr ''__cutoff__''), (''role'', JStr ''user''),
          (''state'', JObj [(''isStreaming'', JBool True)])],
        scenario_envelopes ! 2] initial_state = initial_state
   \<and> on_trailing_message
       (JObj [(''id'', JStr ''__cutoff__''), (''role'', JStr ''user''),
          (''state'', JObj [(''isStreaming'', JBool True)])]) initial_state
       = initial_state\<lparr>streamingStarted := True\<rparr>"
  by (simp add: scenario_envelopes_def on_message_def on_trailing_message_def initial_state_def
      isStreaming_true_def)

text \<open>In the loop the cutoff marker is consumed: no text, no merge, no call of the
  callback.\<close>

lemma cutoff_consumed_in_loop:
  "get_prop c ''id'' = Some (JStr ''__cutoff__'') \<Longrightarrow>
   assistantText (on_message c s) = assistantText s \<and>
   lastMetadata (on_message c s) = lastMetadata s \<and>
   onDelta_calls (on_message c s) = onDelta_calls s"
  by (simp add: on_message_def)

text \<open>
  Claim C4 at its failing input. When the marker
  \<^verbatim>\<open>{"id":"__cutoff__","state":{"isStreaming":true}}\<close> is the trailing line with no line feed
  after it, the trailing path opens the gate and falls through to the merge: the
  accumulator becomes \<^verbatim>\<open>{}\<close> and the callback is called with the marker.
\<close>

theorem trailing_cutoff_forwarded:
  "run_stream scenario_parse [scenario_lines ! 1] =
     initial_state\<lparr>lastMetadata := Some [], streamingStarted := True,
                    onDelta_calls := [([], scenario_envelopes ! 1)]\<rparr>"
  by (simp add: run_stream_def on_trailing_def scenario_parse_def scenario_lines_def
      scenario_envelopes_def js_trim_def is_ws_def on_trailing_message_def initial_state_def
      isStreaming_true_def merge_and_forward_def mergeMeta_def or_empty_def assign_metadata_def
      set_if_truthy_def)

section \<open>Properties of the read loop\<close>

lemma split_nl_nonempty: "split_nl xs \<noteq> []"
  by (induction xs) (auto split: list.splits)

lemma split_nl_append:
  "split_nl (xs @ ys) = butlast (split_nl xs) @ split_nl (last (split_nl xs) @ ys)"
proof (induction xs)
  case Nil
  show ?case by simp
next
  case (Cons c cs)
  show ?case
  proof (cases "c = CHR 0x0A")
    case True
    with Cons show ?thesis by (simp add: split_nl_nonempty)
  next
    case False
    obtain l ls where sp: "split_nl cs = l # ls"
      using split_nl_nonempty [of cs] by (cases "split_nl cs") auto
    show ?thesis
    proof (cases ls)
      case Nil
      with False sp Cons show ?thesis by simp
    next
      case (Cons l' ls')
      with False sp Cons.IH show ?thesis by simp
    qed
  qed
qed

lemma fold_skip_blank:
  "fold (\<lambda>line s. if js_trim line = [] then s else body line s) ls s
     = fold body (filter (\<lambda>l. js_trim l \<noteq> []) ls) s"
  by (induction ls arbitrary: s) auto

lemma split_nl_no_newline: "CHR 0x0A \<notin> set xs \<Longrightarrow> split_nl xs = [xs]"
  by (induction xs) auto

lemma last_split_nl_no_newline: "CHR 0x0A \<notin> set (last (split_nl xs))"
  by (induction xs) (auto split: list.splits simp: split_nl_nonempty)

lemma read_loop_text:
  "CHR 0x0A \<notin> set buffer \<Longrightarrow>
   read_loop body chunks buffer s =
     (last (split_nl (buffer @ concat chunks)),
      fold body (filter (\<lambda>l. js_trim l \<noteq> []) (butlast (split_nl (buffer @ concat chunks)))) s)"
proof (induction chunks arbitrary: buffer s)
  case Nil
  then show ?case by (simp add: split_nl_no_newline)
next
  case (Cons d rest)
  let ?L = "split_nl (buffer @ d)"
  have sp: "split_nl (buffer @ d @ concat rest) = butlast ?L @ split_nl (last ?L @ concat rest)"
    using split_nl_append [of "buffer @ d" "concat rest"] by simp
  have ne: "split_nl (last ?L @ concat rest) \<noteq> []" by (rule split_nl_nonempty)
  have nl: "CHR 0x0A \<notin> set (last ?L)" by (rule last_split_nl_no_newline)
  show ?case
    by (simp add: Let_def Cons.IH [OF nl] sp ne butlast_append fold_skip_blank)
qed

lemma fold_snoc_lines: "fold (\<lambda>line yielded. yielded @ [line]) ls acc = acc @ ls"
  by (induction ls arbitrary: acc) auto

text \<open>
  Claim C5. For every sequence of chunks, the lines the loop hands to the parser are the
  pieces of the whole text between line feeds that are not blank, in their order, each
  once; the last piece, which no line feed ends, is among them when it is not blank. So
  two ways of cutting the same text into chunks yield the same lines.
\<close>

theorem framer_chunk_invariance:
  "framed_lines chunks = filter (\<lambda>l. js_trim l \<noteq> []) (split_nl (concat chunks))
   \<and> (concat chunks' = concat chunks \<longrightarrow> framed_lines chunks' = framed_lines chunks)"
proof -
  have eq: "framed_lines cs = filter (\<lambda>l. js_trim l \<noteq> []) (split_nl (concat cs))" for cs
  proof -
    let ?L = "split_nl (concat cs)"
    have "filter (\<lambda>l. js_trim l \<noteq> []) ?L =
          filter (\<lambda>l. js_trim l \<noteq> []) (butlast ?L @ [last ?L])"
      by (simp add: split_nl_nonempty)
    also have "\<dots> = filter (\<lambda>l. js_trim l \<noteq> []) (butlast ?L) @
                     filter (\<lambda>l. js_trim l \<noteq> []) [last ?L]"
      by (rule filter_append)
    finally show ?thesis
      by (simp add: framed_lines_def read_loop_text fold_snoc_lines)
  qed
  show ?thesis by (simp add: eq)
qed

theorem framer_chunk_invariance_witness:
  "concat [''a\<newline>\<newline>b'', ''c\<newline>'', '' '', ''\<newline>d''] = concat [''a\<newline>\<newline>bc\<newline> \<newline>d'']
   \<and> framed_lines [''a\<newline>\<newline>b'', ''c\<newline>'', '' '', ''\<newline>d''] = [''a'', ''bc'', ''d'']
   \<and> framed_lines [''a\<newline>\<newline>bc\<newline> \<newline>d''] = [''a'', ''bc'', ''d'']"
  using framer_chunk_invariance [of "[''a\<newline>\<newline>b'', ''c\<newline>'', '' '', ''\<newline>d'']" "[''a\<newline>\<newline>bc\<newline> \<newline>d'']"]
  by (simp add: js_trim_def is_ws_def)

lemma run_stream_text:
  "run_stream p chunks =
     on_trailing p (last (split_nl (concat chunks)))
       (fold (on_line p)
          (filter (\<lambda>l. js_trim l \<noteq> []) (butlast (split_nl (concat chunks)))) initial_state)"
  by (simp add: run_stream_def read_loop_text)

section \<open>Properties of the callback of the route\<close>

lemma delta_contents_append:
  "delta_contents (xs @ ys) = delta_contents xs @ delta_contents ys"
  by (induction xs rule: delta_contents.induct) auto

lemma onDelta_exact:
  "c = [] \<or> acc = [] \<or> \<not> starts_with c acc \<Longrightarrow>
   onDelta (c, raw) (acc, out) =
     (acc @ c, out @ (if c = [] then [] else [Delta c]) @ (if has_side_channel raw then [Event raw] else []))"
  by (auto simp: onDelta_def Let_def starts_with_def)

lemma onDelta_prefix:
  "starts_with c acc \<Longrightarrow>
   onDelta (c, raw) (acc, out) =
     (c, out @ (if drop (length acc) c = [] then [] else [Delta (drop (length acc) c)])
           @ (if has_side_channel raw then [Event raw] else []))"
proof -
  assume "starts_with c acc"
  then have "acc @ drop (length acc) c = c"
    unfolding starts_with_def by (metis append_take_drop_id)
  moreover from this have "drop (length acc) c = [] \<Longrightarrow> acc = c"
    by simp
  ultimately show ?thesis
    using \<open>starts_with c acc\<close> by (auto simp: onDelta_def Let_def)
qed

lemma fold_onDelta_exact:
  "clash_free acc (map fst calls) \<Longrightarrow>
   fst (fold onDelta calls (acc, out)) = acc @ concat (map fst calls) \<and>
   delta_contents (snd (fold onDelta calls (acc, out))) =
     delta_contents out @ filter (\<lambda>c. c \<noteq> []) (map fst calls)"
proof (induction calls arbitrary: acc out)
  case Nil
  show ?case by simp
next
  case (Cons call calls)
  obtain c raw where call: "call = (c, raw)" by (cases call)
  from Cons.prems call have ok: "c = [] \<or> acc = [] \<or> \<not> starts_with c acc"
    and rest: "clash_free (acc @ c) (map fst calls)" by simp_all
  show ?case
    unfolding call using Cons.IH [OF rest]
    by (simp add: onDelta_exact [OF ok] delta_contents_append)
qed

text \<open>
  Claim C6, as the code has it. When no chunk that is not empty begins with all the text
  emitted before it, the delta lines written carry exactly the chunks that are not
  empty, one line each, in order. A chunk that does begin with the text emitted so far is
  written without that prefix, and not at all when nothing is left of it.
\<close>

theorem delta_exact_when_clash_free:
  "(clash_free [] (map fst calls) \<longrightarrow>
      delta_contents (snd (fold onDelta calls ([], []))) = filter (\<lambda>c. c \<noteq> []) (map fst calls))
   \<and> (starts_with chunk acc \<longrightarrow>
      delta_contents (snd (onDelta (chunk, raw) (acc, out))) =
        delta_contents out @
          (if drop (length acc) chunk = [] then [] else [drop (length acc) chunk]))"
proof (intro conjI impI)
  assume "clash_free [] (map fst calls)"
  from fold_onDelta_exact [OF this, of "[]"]
  show "delta_contents (snd (fold onDelta calls ([], []))) = filter (\<lambda>c. c \<noteq> []) (map fst calls)"
    by simp
next
  assume "starts_with chunk acc"
  then show "delta_contents (snd (onDelta (chunk, raw) (acc, out))) =
        delta_contents out @
          (if drop (length acc) chunk = [] then [] else [drop (length acc) chunk])"
    by (simp add: onDelta_prefix delta_contents_append)
qed

theorem delta_exact_witness:
  "clash_free [] (map fst (onDelta_calls (fold on_message
       [scenario_envelopes ! 1, scenario_envelopes ! 2, scenario_envelopes ! 3] initial_state)))
   \<and> delta_contents (snd (fold onDelta (onDelta_calls (fold on_message
       [scenario_envelopes ! 1, scenario_envelopes ! 2, scenario_envelopes ! 3] initial_state)) ([], [])))
      = [''Sales '', ''are up.'']
   \<and> starts_with ''Sales are up.'' ''Sales ''
   \<and> delta_contents (snd (onDelta (''Sales are up.'', scenario_envelopes ! 3) (''Sales '', [Delta ''Sales ''])))
      = [''Sales '', ''are up.'']"
  using delta_exact_when_clash_free [of "onDelta_calls (fold on_message
       [scenario_envelopes ! 1, scenario_envelopes ! 2, scenario_envelopes ! 3] initial_state)"
       "''Sales are up.''" "''Sales ''" "scenario_envelopes ! 3" "[Delta ''Sales '']"]
  by (simp add: scenario_envelopes_def initial_state_def isStreaming_true_def on_message_def
      merge_and_forward_def starts_with_def)

text \<open>
  Claim C6 as stated fails: the accepted fragments \<^verbatim>\<open>"ha"\<close>, \<^verbatim>\<open>"ha"\<close> make the text
  \<^verbatim>\<open>"haha"\<close> but a single delta line, and the fragments \<^verbatim>\<open>"a"\<close>, \<^verbatim>\<open>"ab"\<close> make the delta
  lines \<^verbatim>\<open>"a"\<close>, \<^verbatim>\<open>"b"\<close>.
\<close>

theorem delta_exact_counterexample:
  "assistantText (fold on_message
      [scenario_envelopes ! 1, JObj [(''role'', JStr ''assistant''), (''content'', JStr ''ha'')],
       JObj [(''role'', JStr ''assistant''), (''content'', JStr ''ha'')]] initial_state) = ''haha''
   \<and> snd (fold onDelta (onDelta_calls (fold on_message
      [scenario_envelopes ! 1, JObj [(''role'', JStr ''assistant''), (''content'', JStr ''ha'')],
       JObj [(''role'', JStr ''assistant''), (''content'', JStr ''ha'')]] initial_state)) ([], []))
     = [Delta ''ha'']
   \<and> snd (fold onDelta (onDelta_calls (fold on_message
      [scenario_envelopes ! 1, JObj [(''role'', JStr ''assistant''), (''content'', JStr ''a'')],
       JObj [(''role'', JStr ''assistant''), (''content'', JStr ''ab'')]] initial_state)) ([], []))
     = [Delta ''a'', Delta ''b'']"
  by (simp add: scenario_envelopes_def initial_state_def isStreaming_true_def on_message_def
      merge_and_forward_def onDelta_def starts_with_def has_side_channel_def Let_def)

section \<open>Properties of the route\<close>

lemma scenario_nonblank: "filter (\<lambda>l. js_trim l \<noteq> []) scenario_lines = scenario_lines"
  by (simp add: scenario_lines_def js_trim_def is_ws_def)

lemma scenario_split:
  "split_nl (js_join ''\<newline>'' scenario_lines) = scenario_lines"
  "split_nl (js_join ''\<newline>'' scenario_lines @ ''\<newline>'') = scenario_lines @ [[]]"
  by (simp_all add: scenario_lines_def)

lemma scenario_messages:
  "fold on_message (take 3 scenario_envelopes) initial_state =
     \<lparr>assistantText = ''Sales '', lastMetadata = Some [], streamingStarted = True,
      onDelta_calls = [([], scenario_envelopes ! 2), (''Sales '', scenario_envelopes ! 2)]\<rparr>"
  by (simp add: scenario_envelopes_def initial_state_def on_message_def isStreaming_true_def
      merge_and_forward_def mergeMeta_def or_empty_def assign_metadata_def set_if_truthy_def)

lemma scenario_last:
  "on_message (scenario_envelopes ! 3)
     \<lparr>assistantText = ''Sales '', lastMetadata = Some [], streamingStarted = True,
      onDelta_calls = [([], scenario_envelopes ! 2), (''Sales '', scenario_envelopes ! 2)]\<rparr>
     = \<lparr>assistantText = ''Sales are up.'', lastMetadata = Some [], streamingStarted = True,
      onDelta_calls =
        [([], scenario_envelopes ! 2), (''Sales '', scenario_envelopes ! 2),
         ([], scenario_envelopes ! 3), (''are up.'', scenario_envelopes ! 3)]\<rparr>"
  "on_trailing_message (scenario_envelopes ! 3)
     \<lparr>assistantText = ''Sales '', lastMetadata = Some [], streamingStarted = True,
      onDelta_calls = [([], scenario_envelopes ! 2), (''Sales '', scenario_envelopes ! 2)]\<rparr>
     = \<lparr>assistantText = ''Sales are up.'', lastMetadata = Some [], streamingStarted = True,
      onDelta_calls =
        [([], scenario_envelopes ! 2), (''Sales '', scenario_envelopes ! 2),
         ([], scenario_envelopes ! 3), (''are up.'', scenario_envelopes ! 3)]\<rparr>"
  by (simp_all add: scenario_envelopes_def on_message_def on_trailing_message_def
      merge_and_forward_def mergeMeta_def or_empty_def assign_metadata_def set_if_truthy_def)

lemma fold_on_line_parsed:
  "map p ls = map Some ms \<Longrightarrow> fold (on_line p) ls s = fold on_message ms s"
proof (induction ls arbitrary: ms s)
  case Nil
  then show ?case by simp
next
  case (Cons l ls)
  then obtain m ms' where "ms = m # ms'" "p l = Some m" "map p ls = map Some ms'"
    by (cases ms) auto
  with Cons.IH show ?case by (simp add: on_line_def)
qed

lemma scenario_stream:
  assumes p: "map p scenario_lines = map Some scenario_envelopes"
    and whole: "concat chunks = js_join ''\<newline>'' scenario_lines \<or>
               concat chunks = js_join ''\<newline>'' scenario_lines @ ''\<newline>''"
  shows "run_stream p chunks = \<lparr>assistantText = ''Sales are up.'', lastMetadata = Some [], streamingStarted = True,
      onDelta_calls =
        [([], scenario_envelopes ! 2), (''Sales '', scenario_envelopes ! 2),
         ([], scenario_envelopes ! 3), (''are up.'', scenario_envelopes ! 3)]\<rparr>"
proof -
  have p3: "map p (take 3 scenario_lines) = map Some (take 3 scenario_envelopes)"
    using p by (metis take_map)
  have p4: "p (scenario_lines ! 3) = Some (scenario_envelopes ! 3)"
    using p by (simp add: scenario_lines_def scenario_envelopes_def)
  have b3: "butlast scenario_lines = take 3 scenario_lines"
    and l3: "last scenario_lines = scenario_lines ! 3"
    and t3: "js_trim (scenario_lines ! 3) \<noteq> []"
    and n3: "filter (\<lambda>l. js_trim l \<noteq> []) (take 3 scenario_lines) = take 3 scenario_lines"
    and all4: "take 3 scenario_lines @ [scenario_lines ! 3] = scenario_lines"
    and env4: "take 3 scenario_envelopes @ [scenario_envelopes ! 3] = scenario_envelopes"
    by (simp_all add: scenario_lines_def scenario_envelopes_def js_trim_def is_ws_def)
  from whole show ?thesis
  proof
    assume "concat chunks = js_join ''\<newline>'' scenario_lines"
    then have "run_stream p chunks =
        on_trailing p (scenario_lines ! 3) (fold (on_line p) (take 3 scenario_lines) initial_state)"
      by (simp add: run_stream_text scenario_split b3 l3 n3)
    also have "\<dots> = on_trailing_message (scenario_envelopes ! 3)
        (fold on_message (take 3 scenario_envelopes) initial_state)"
      by (simp add: on_trailing_def t3 p4 fold_on_line_parsed [OF p3])
    finally show ?thesis by (simp add: scenario_messages scenario_last)
  next
    assume "concat chunks = js_join ''\<newline>'' scenario_lines @ ''\<newline>''"
    then have "run_stream p chunks =
        on_trailing p [] (fold (on_line p) scenario_lines initial_state)"
      by (simp add: run_stream_text scenario_split scenario_nonblank)
    also have "\<dots> = fold on_message scenario_envelopes initial_state"
      by (simp add: on_trailing_def js_trim_def fold_on_line_parsed [OF p])
    also have "\<dots> = on_message (scenario_envelopes ! 3)
        (fold on_message (take 3 scenario_envelopes) initial_state)"
      by (subst env4 [symmetric]) (simp only: fold_append fold_simps comp_apply id_apply)
    finally show ?thesis by (simp add: scenario_messages scenario_last)
  qed
qed


lemma scenario_sendToCube:
  assumes "map p scenario_lines = map Some scenario_envelopes"
    and "concat chunks = js_join ''\<newline>'' scenario_lines \<or>
         concat chunks = js_join ''\<newline>'' scenario_lines @ ''\<newline>''"
    and "res_ok res" and "res_body res = Some chunks"
  shows "sendToCube True p res =
     Inr (\<lparr>message = ''Sales are up.'', metadata = Some []\<rparr>, [([], scenario_envelopes ! 2), (''Sales '', scenario_envelopes ! 2),
         ([], scenario_envelopes ! 3), (''are up.'', scenario_envelopes ! 3)])"
  using assms(3,4) by (simp add: sendToCube_def scenario_stream [OF assms(1,2)])

lemma scenario_onDelta:
  "fold onDelta ([([], scenario_envelopes ! 2), (''Sales '', scenario_envelopes ! 2),
         ([], scenario_envelopes ! 3), (''are up.'', scenario_envelopes ! 3)]) ([], []) =
     (''Sales are up.'', [Delta ''Sales '', Delta ''are up.''])"
  by (simp add: scenario_envelopes_def onDelta_def starts_with_def
      has_side_channel_def Let_def)

lemma addMessage_known:
  "cid \<in> set (map conv_id (conversations db)) \<Longrightarrow>
   addMessage db cid m =
     Inr (db\<lparr>messages := messages db @
        [\<lparr>row_conversation_id = cid, row_role = role m, row_content = content m,
          row_timestamp = timestamp m,
          row_metadata = (case payload_metadata m of None \<Rightarrow> JNull | Some j \<Rightarrow> j)\<rparr>]\<rparr>)"
  by (simp add: addMessage_def)

lemma listMessages_member:
  "list_ex (\<lambda>c. conv_id c = cid \<and> conv_user_id c = uid) (conversations db) \<Longrightarrow>
   r \<in> set (messages db) \<Longrightarrow> row_conversation_id r = cid \<Longrightarrow>
   \<lparr>role = row_role r, content = row_content r, timestamp = row_timestamp r,
     payload_metadata = Some (row_metadata r)\<rparr> \<in> set (or_empty (listMessages db cid uid))"
  by (auto simp: listMessages_def or_empty_def)

lemma owner_known:
  "list_ex (\<lambda>c. conv_id c = cid \<and> conv_user_id c = uid) cs \<Longrightarrow> cid \<in> set (map conv_id cs)"
  by (auto simp: list_ex_iff)

lemma post_chat_existing:
  assumes send: "sendToCube (configured env) (parse env) (upstream env) = Inr (cr, calls)"
    and c: "req_content req = Some c" "c \<noteq> []"
    and conv: "req_conversationId req = Some cid" "cid \<noteq> []"
      "cid \<in> set (map conv_id (conversations db))"
  shows "post_chat env db req =
     (let db2 = db\<lparr>messages := messages db @
            [\<lparr>row_conversation_id = cid, row_role = ''user'', row_content = c,
              row_timestamp = now_start env, row_metadata = JNull\<rparr>,
             \<lparr>row_conversation_id = cid, row_role = ''assistant'', row_content = message cr,
              row_timestamp = now_end env,
              row_metadata = (case metadata cr of None \<Rightarrow> JNull | Some m \<Rightarrow> JObj m)\<rparr>]\<rparr>
      in (db2, \<lparr>status = 200,
                written = snd (fold onDelta calls ([], [])) @
                  [Done cid (or_empty (listMessages db2 cid (userId_of req)))],
                json_body = None, ended = True, thrown = None\<rparr>))"
  using assms
  by (simp add: post_chat_def Let_def addMessage_known fresh_response_def
      split: option.splits)

lemma post_chat_new:
  assumes send: "sendToCube (configured env) (parse env) (upstream env) = Inr (cr, calls)"
    and c: "req_content req = Some c" "c \<noteq> []"
    and conv: "req_conversationId req = None \<or> req_conversationId req = Some []"
      "uuid env \<notin> set (map conv_id (conversations db))"
  shows "post_chat env db req =
     (let db2 = db\<lparr>conversations := conversations db @
            [\<lparr>conv_id = uuid env, conv_user_id = userId_of req, conv_title = Some (take 50 c)\<rparr>],
          messages := messages db @
            [\<lparr>row_conversation_id = uuid env, row_role = ''user'', row_content = c,
              row_timestamp = now_start env, row_metadata = JNull\<rparr>,
             \<lparr>row_conversation_id = uuid env, row_role = ''assistant'', row_content = message cr,
              row_timestamp = now_end env,
              row_metadata = (case metadata cr of None \<Rightarrow> JNull | Some m \<Rightarrow> JObj m)\<rparr>]\<rparr>
      in (db2, \<lparr>status = 200,
                written = snd (fold onDelta calls ([], [])) @
                  [Done (uuid env) (or_empty (listMessages db2 (uuid env) (userId_of req)))],
                json_body = None, ended = True, thrown = None\<rparr>))"
  using assms
  by (auto simp add: post_chat_def Let_def addMessage_known createConversation_def fresh_response_def
      split: option.splits)

text \<open>
  Claim C3. Let the parser return the four envelopes of the scenario for its four lines,
  and let the upstream body, cut into chunks in any way, be those lines separated by line
  feeds, with or without a line feed at the end. For a request with some content, on a
  conversation that is new or that belongs to the user, the route writes the delta line
  \<^verbatim>\<open>"Sales "\<close>, the delta line \<^verbatim>\<open>"are up."\<close> and one done line, in this order and nothing
  else, and ends the response. The done line carries the stored messages of the
  conversation, and the assistant's message with the content \<^verbatim>\<open>"Sales are up."\<close> is among
  them.
\<close>

theorem example_scenario:
  assumes p: "map (parse env) scenario_lines = map Some scenario_envelopes"
    and up: "configured env" "res_ok (upstream env)" "res_body (upstream env) = Some chunks"
    and whole: "concat chunks = js_join ''\<newline>'' scenario_lines \<or>
                concat chunks = js_join ''\<newline>'' scenario_lines @ ''\<newline>''"
    and c: "req_content req = Some c" "c \<noteq> []"
    and conv: "(req_conversationId req = None \<or> req_conversationId req = Some []) \<and>
               uuid env \<notin> set (map conv_id (conversations db)) \<and> cid = uuid env
             \<or> req_conversationId req = Some cid \<and> cid \<noteq> [] \<and>
               list_ex (\<lambda>r. conv_id r = cid \<and> conv_user_id r = userId_of req) (conversations db)"
  shows "written (snd (post_chat env db req)) =
           [Delta ''Sales '', Delta ''are up.'',
            Done cid (or_empty (listMessages (fst (post_chat env db req)) cid (userId_of req)))]
       \<and> \<lparr>role = ''assistant'', content = ''Sales are up.'', timestamp = now_end env,
           payload_metadata = Some (JObj [])\<rparr>
           \<in> set (or_empty (listMessages (fst (post_chat env db req)) cid (userId_of req)))
       \<and> ended (snd (post_chat env db req))"
proof -
  have send: "sendToCube (configured env) (parse env) (upstream env) =
     Inr (\<lparr>message = ''Sales are up.'', metadata = Some []\<rparr>, [([], scenario_envelopes ! 2), (''Sales '', scenario_envelopes ! 2),
         ([], scenario_envelopes ! 3), (''are up.'', scenario_envelopes ! 3)])"
    using scenario_sendToCube [OF p whole up(2,3)] up(1) by simp
  let ?row = "\<lparr>row_conversation_id = cid, row_role = ''assistant'', row_content = ''Sales are up.'',
              row_timestamp = now_end env, row_metadata = JObj []\<rparr>"
  from conv show ?thesis
  proof
    assume "(req_conversationId req = None \<or> req_conversationId req = Some []) \<and>
               uuid env \<notin> set (map conv_id (conversations db)) \<and> cid = uuid env"
    then have new: "req_conversationId req = None \<or> req_conversationId req = Some []"
      "uuid env \<notin> set (map conv_id (conversations db))" "cid = uuid env"
      by simp_all
    have own: "list_ex (\<lambda>r. conv_id r = cid \<and> conv_user_id r = userId_of req)
        (conversations (fst (post_chat env db req)))"
      by (simp add: post_chat_new [OF send c new(1,2)] Let_def new(3))
    have row: "?row \<in> set (messages (fst (post_chat env db req)))"
      by (simp add: post_chat_new [OF send c new(1,2)] Let_def new(3))
    show ?thesis
      using listMessages_member [OF own row]
      by (simp add: post_chat_new [OF send c new(1,2)] Let_def new(3) scenario_onDelta
          del: fold.simps)
  next
    assume "req_conversationId req = Some cid \<and> cid \<noteq> [] \<and>
               list_ex (\<lambda>r. conv_id r = cid \<and> conv_user_id r = userId_of req) (conversations db)"
    then have old: "req_conversationId req = Some cid" "cid \<noteq> []"
      "list_ex (\<lambda>r. conv_id r = cid \<and> conv_user_id r = userId_of req) (conversations db)"
      by simp_all
    note known = owner_known [OF old(3)]
    have own: "list_ex (\<lambda>r. conv_id r = cid \<and> conv_user_id r = userId_of req)
        (conversations (fst (post_chat env db req)))"
      using old(3) by (simp add: post_chat_existing [OF send c old(1,2) known] Let_def)
    have row: "?row \<in> set (messages (fst (post_chat env db req)))"
      by (simp add: post_chat_existing [OF send c old(1,2) known] Let_def)
    show ?thesis
      using listMessages_member [OF own row]
      by (simp add: post_chat_existing [OF send c old(1,2) known] Let_def scenario_onDelta
          del: fold.simps)
  qed
qed


theorem example_scenario_witness:
  "written (snd (post_chat
      \<lparr>configured = True, parse = scenario_parse,
        upstream = \<lparr>res_ok = True, res_status = 200,
          res_body = Some [scenario_lines ! 0 @ ''\<newline>'' @ take 20 (scenario_lines ! 1),
                           drop 20 (scenario_lines ! 1) @ ''\<newline>'' @ scenario_lines ! 2 @ ''\<newline>'',
                           scenario_lines ! 3]\<rparr>,
        uuid = ''c-1'', now_start = ''2024-01-01T00:00:00.000Z'', now_end = ''2024-01-01T00:00:05.000Z''\<rparr>
      \<lparr>foreign_keys = True, conversations = [], messages = []\<rparr>
      \<lparr>req_userId = Some ''u-1'', req_content = Some ''How are sales?'', req_conversationId = None\<rparr>))
   = [Delta ''Sales '', Delta ''are up.'',
      Done ''c-1''
        [\<lparr>role = ''user'', content = ''How are sales?'', timestamp = ''2024-01-01T00:00:00.000Z'',
          payload_metadata = Some JNull\<rparr>,
         \<lparr>role = ''assistant'', content = ''Sales are up.'', timestamp = ''2024-01-01T00:00:05.000Z'',
          payload_metadata = Some (JObj [])\<rparr>]]"
  using example_scenario [of
      "\<lparr>configured = True, parse = scenario_parse,
        upstream = \<lparr>res_ok = True, res_status = 200,
          res_body = Some [scenario_lines ! 0 @ ''\<newline>'' @ take 20 (scenario_lines ! 1),
                           drop 20 (scenario_lines ! 1) @ ''\<newline>'' @ scenario_lines ! 2 @ ''\<newline>'',
                           scenario_lines ! 3]\<rparr>,
        uuid = ''c-1'', now_start = ''2024-01-01T00:00:00.000Z'', now_end = ''2024-01-01T00:00:05.000Z''\<rparr>"
      "[scenario_lines ! 0 @ ''\<newline>'' @ take 20 (scenario_lines ! 1),
                           drop 20 (scenario_lines ! 1) @ ''\<newline>'' @ scenario_lines ! 2 @ ''\<newline>'',
                           scenario_lines ! 3]"
      "\<lparr>req_userId = Some ''u-1'', req_content = Some ''How are sales?'', req_conversationId = None\<rparr>"
      "''How are sales?''"
      "\<lparr>foreign_keys = True, conversations = [], messages = []\<rparr>" "''c-1''"]
  by (simp add: scenario_parse_def scenario_lines_def scenario_envelopes_def post_chat_def
      userId_of_def createConversation_def addMessage_def listMessages_def sendToCube_def
      run_stream_def on_line_def on_trailing_def on_message_def on_trailing_message_def
      merge_and_forward_def mergeMeta_def assign_metadata_def set_if_truthy_def or_empty_def
      isStreaming_true_def initial_state_def js_trim_def is_ws_def onDelta_def starts_with_def
      has_side_channel_def fresh_response_def Let_def less_eq_char_def less_char_def)

lemma sendToCube_fails:
  "\<not> res_ok res \<or> res_body res = None \<Longrightarrow>
   sendToCube conf p res = Inl (if conf then CubeApiHttp (res_status res) else NotConfigured)"
  by (auto simp: sendToCube_def split: option.splits)

lemma post_chat_upstream_fails:
  assumes "\<not> res_ok (upstream env) \<or> res_body (upstream env) = None"
  shows "written (snd (post_chat env db req)) = [] \<and> \<not> ended (snd (post_chat env db req))"
  by (auto simp: post_chat_def Let_def sendToCube_fails [OF assms] fresh_response_def
      split: sum.splits prod.splits)

lemma post_chat_upstream_throws:
  assumes "\<not> res_ok (upstream env) \<or> res_body (upstream env) = None"
    and "req_content req \<noteq> None" and "req_content req \<noteq> Some []"
  shows "thrown (snd (post_chat env db req)) \<noteq> None"
  using assms(2,3)
  by (auto simp: post_chat_def Let_def sendToCube_fails [OF assms(1)] fresh_response_def
      split: sum.splits prod.splits)

lemma post_chat_upstream_fails_db:
  assumes "\<not> res_ok (upstream env) \<or> res_body (upstream env) = None"
  shows "filter (\<lambda>r. row_role r \<noteq> ''user'') (messages (fst (post_chat env db req))) =
         filter (\<lambda>r. row_role r \<noteq> ''user'') (messages db)"
  by (auto simp: post_chat_def Let_def sendToCube_fails [OF assms] createConversation_def addMessage_def
      split: sum.splits prod.splits if_splits)

lemma post_chat_upstream_fails_usual:
  assumes "\<not> res_ok (upstream env) \<or> res_body (upstream env) = None"
    and "configured env" and "req_content req = Some c" and "c \<noteq> []"
    and "req_conversationId req = Some cid" and "cid \<noteq> []"
    and "cid \<in> set (map conv_id (conversations db))"
  shows "post_chat env db req =
          (db\<lparr>messages := messages db @
               [\<lparr>row_conversation_id = cid, row_role = ''user'', row_content = c,
                 row_timestamp = now_start env, row_metadata = JNull\<rparr>]\<rparr>,
           fresh_response\<lparr>thrown := Some (CubeApiHttp (res_status (upstream env)))\<rparr>)"
  using assms(2-)
  by (simp add: post_chat_def Let_def sendToCube_fails [OF assms(1)] addMessage_known)

lemma post_chat_upstream_fails_new:
  assumes "\<not> res_ok (upstream env) \<or> res_body (upstream env) = None"
    and "configured env" and "req_content req = Some c" and "c \<noteq> []"
    and "req_conversationId req = None \<or> req_conversationId req = Some []"
    and "uuid env \<notin> set (map conv_id (conversations db))"
  shows "post_chat env db req =
          (db\<lparr>conversations := conversations db @
               [\<lparr>conv_id = uuid env, conv_user_id = userId_of req,
                 conv_title = Some (take 50 c)\<rparr>],
              messages := messages db @
               [\<lparr>row_conversation_id = uuid env, row_role = ''user'', row_content = c,
                 row_timestamp = now_start env, row_metadata = JNull\<rparr>]\<rparr>,
           fresh_response\<lparr>thrown := Some (CubeApiHttp (res_status (upstream env)))\<rparr>)"
  using assms(2-)
  by (auto simp: post_chat_def Let_def sendToCube_fails [OF assms(1)] addMessage_known
      createConversation_def)

text \<open>
  Claim C8, as the code has it. When the upstream response is not a success or has no
  body, the route writes no delta, event or done line and does not end the response; for
  a request with some content the handler throws, once. No message other than a user's is
  added to the store. For a request with some content, with the upstream configured, on
  a known conversation or on a new one, the outcome is exactly: the user's message is
  stored (after the new conversation, if one is made), the response is untouched, and the
  error thrown is the one of sendToCube for the upstream status.
\<close>

theorem upstream_failure:
  "(\<not> res_ok (upstream env) \<or> res_body (upstream env) = None) \<longrightarrow>
     written (snd (post_chat env db req)) = [] \<and>
     \<not> ended (snd (post_chat env db req)) \<and>
     (req_content req \<noteq> None \<and> req_content req \<noteq> Some [] \<longrightarrow>
        thrown (snd (post_chat env db req)) \<noteq> None) \<and>
     filter (\<lambda>r. row_role r \<noteq> ''user'') (messages (fst (post_chat env db req))) =
       filter (\<lambda>r. row_role r \<noteq> ''user'') (messages db) \<and>
     (configured env \<and> req_content req = Some c \<and> c \<noteq> [] \<and>
      req_conversationId req = Some cid \<and> cid \<noteq> [] \<and>
      cid \<in> set (map conv_id (conversations db)) \<longrightarrow>
        post_chat env db req =
          (db\<lparr>messages := messages db @
               [\<lparr>row_conversation_id = cid, row_role = ''user'', row_content = c,
                 row_timestamp = now_start env, row_metadata = JNull\<rparr>]\<rparr>,
           fresh_response\<lparr>thrown := Some (CubeApiHttp (res_status (upstream env)))\<rparr>)) \<and>
     (configured env \<and> req_content req = Some c \<and> c \<noteq> [] \<and>
      (req_conversationId req = None \<or> req_conversationId req = Some []) \<and>
      uuid env \<notin> set (map conv_id (conversations db)) \<longrightarrow>
        post_chat env db req =
          (db\<lparr>conversations := conversations db @
               [\<lparr>conv_id = uuid env, conv_user_id = userId_of req,
                 conv_title = Some (take 50 c)\<rparr>],
              messages := messages db @
               [\<lparr>row_conversation_id = uuid env, row_role = ''user'', row_content = c,
                 row_timestamp = now_start env, row_metadata = JNull\<rparr>]\<rparr>,
           fresh_response\<lparr>thrown := Some (CubeApiHttp (res_status (upstream env)))\<rparr>))"
proof (intro impI conjI)
  assume fail: "\<not> res_ok (upstream env) \<or> res_body (upstream env) = None"
  show "written (snd (post_chat env db req)) = []"
    using post_chat_upstream_fails [OF fail] by simp
  show "\<not> ended (snd (post_chat env db req))"
    using post_chat_upstream_fails [OF fail] by simp
  show "filter (\<lambda>r. row_role r \<noteq> ''user'') (messages (fst (post_chat env db req))) =
       filter (\<lambda>r. row_role r \<noteq> ''user'') (messages db)"
    using fail by (rule post_chat_upstream_fails_db)
next
  assume fail: "\<not> res_ok (upstream env) \<or> res_body (upstream env) = None"
    and "req_content req \<noteq> None \<and> req_content req \<noteq> Some []"
  then show "thrown (snd (post_chat env db req)) \<noteq> None"
    by (simp add: post_chat_upstream_throws)
next
  assume fail: "\<not> res_ok (upstream env) \<or> res_body (upstream env) = None"
    and "configured env \<and> req_content req = Some c \<and> c \<noteq> [] \<and>
      req_conversationId req = Some cid \<and> cid \<noteq> [] \<and>
      cid \<in> set (map conv_id (conversations db))"
  then show "post_chat env db req =
          (db\<lparr>messages := messages db @
               [\<lparr>row_conversation_id = cid, row_role = ''user'', row_content = c,
                 row_timestamp = now_start env, row_metadata = JNull\<rparr>]\<rparr>,
           fresh_response\<lparr>thrown := Some (CubeApiHttp (res_status (upstream env)))\<rparr>)"
    by (simp add: post_chat_upstream_fails_usual)
next
  assume fail: "\<not> res_ok (upstream env) \<or> res_body (upstream env) = None"
    and "configured env \<and> req_content req = Some c \<and> c \<noteq> [] \<and>
      (req_conversationId req = None \<or> req_conversationId req = Some []) \<and>
      uuid env \<notin> set (map conv_id (conversations db))"
  then show "post_chat env db req =
          (db\<lparr>conversations := conversations db @
               [\<lparr>conv_id = uuid env, conv_user_id = userId_of req,
                 conv_title = Some (take 50 c)\<rparr>],
              messages := messages db @
               [\<lparr>row_conversation_id = uuid env, row_role = ''user'', row_content = c,
                 row_timestamp = now_start env, row_metadata = JNull\<rparr>]\<rparr>,
           fresh_response\<lparr>thrown := Some (CubeApiHttp (res_status (upstream env)))\<rparr>)"
    by (simp add: post_chat_upstream_fails_new)
qed

theorem upstream_failure_witness:
  "post_chat
      \<lparr>configured = True, parse = scenario_parse,
        upstream = \<lparr>res_ok = False, res_status = 500, res_body = Some []\<rparr>,
        uuid = ''c-2'', now_start = ''2024-01-01T00:00:00.000Z'', now_end = ''2024-01-01T00:00:05.000Z''\<rparr>
      \<lparr>foreign_keys = True,
        conversations = [\<lparr>conv_id = ''c-1'', conv_user_id = ''u-1'', conv_title = None\<rparr>],
        messages = []\<rparr>
      \<lparr>req_userId = Some ''u-1'', req_content = Some ''hi'', req_conversationId = Some ''c-1''\<rparr>
   = (\<lparr>foreign_keys = True,
        conversations = [\<lparr>conv_id = ''c-1'', conv_user_id = ''u-1'', conv_title = None\<rparr>],
        messages = [\<lparr>row_conversation_id = ''c-1'', row_role = ''user'', row_content = ''hi'',
                 row_timestamp = ''2024-01-01T00:00:00.000Z'', row_metadata = JNull\<rparr>]\<rparr>,
      \<lparr>status = 200, written = [], json_body = None, ended = False,
        thrown = Some (CubeApiHttp 500)\<rparr>)"
  using upstream_failure [of
      "\<lparr>configured = True, parse = scenario_parse,
        upstream = \<lparr>res_ok = False, res_status = 500, res_body = Some []\<rparr>,
        uuid = ''c-2'', now_start = ''2024-01-01T00:00:00.000Z'', now_end = ''2024-01-01T00:00:05.000Z''\<rparr>"
      "\<lparr>foreign_keys = True,
        conversations = [\<lparr>conv_id = ''c-1'', conv_user_id = ''u-1'', conv_title = None\<rparr>],
        messages = []\<rparr>"
      "\<lparr>req_userId = Some ''u-1'', req_content = Some ''hi'', req_conversationId = Some ''c-1''\<rparr>"
      "''hi''" "''c-1''"]
  by (simp add: fresh_response_def)

text \<open>
  Claim C8 as stated fails in its last part: the user's message is stored before the
  upstream request is made, and it stays stored when that request fails.
\<close>

theorem upstream_failure_counterexample:
  "messages (fst (post_chat
      \<lparr>configured = True, parse = scenario_parse,
        upstream = \<lparr>res_ok = False, res_status = 500, res_body = None\<rparr>,
        uuid = ''c-1'', now_start = ''2024-01-01T00:00:00.000Z'', now_end = ''2024-01-01T00:00:05.000Z''\<rparr>
      \<lparr>foreign_keys = True, conversations = [], messages = []\<rparr>
      \<lparr>req_userId = Some ''u-1'', req_content = Some ''hi'', req_conversationId = None\<rparr>))
   = [\<lparr>row_conversation_id = ''c-1'', row_role = ''user'', row_content = ''hi'',
       row_timestamp = ''2024-01-01T00:00:00.000Z'', row_metadata = JNull\<rparr>]"
  by (simp add: post_chat_def userId_of_def createConversation_def addMessage_def sendToCube_def
      Let_def fresh_response_def)

section \<open>Properties of the reducer\<close>









end
